theory Spec2Isabelle
  imports Main "HOL-Library.Word"
begin

unbundle bit_operations_syntax

section \<open>The LSM6DSV16X sensor-fusion driver (adafruit\_lsm6ds/lsm6dsv16x.py)\<close>

text \<open>
  The driver talks to the sensor through register descriptors (\<open>RWBit\<close>, \<open>RWBits\<close>,
  \<open>ROBits\<close>, \<open>Struct\<close>) bound as class attributes. Reading such an attribute is one bus
  read; assigning to it is a bus read followed by a bus write of the modified bytes.
  Python's identifiers with a leading underscore lose it here (\<open>_enable_sflp\<close> is
  \<open>enable_sflp\<close>), since an Isabelle name starts with a letter.
\<close>

subsection \<open>Register addresses and bit masks\<close>

type_synonym byte = "8 word"

definition LSM6DSV16X_SFLP_ODR :: nat where "LSM6DSV16X_SFLP_ODR = 0x5E"
definition LSM6DSV16X_EMB_FUNC_FIFO_EN_A :: nat where "LSM6DSV16X_EMB_FUNC_FIFO_EN_A = 0x44"
definition LSM6DSV16X_FIFO_CTRL4 :: nat where "LSM6DSV16X_FIFO_CTRL4 = 0x0A"
definition LSM6DSV16X_FIFO_STATUS1 :: nat where "LSM6DSV16X_FIFO_STATUS1 = 0x1B"
definition LSM6DSV16X_FIFO_DATA_OUT_X_L :: nat where "LSM6DSV16X_FIFO_DATA_OUT_X_L = 0x79"
definition LSM6DSV16X_FIFO_DATA_OUT_TAG :: nat where "LSM6DSV16X_FIFO_DATA_OUT_TAG = 0x78"

definition SAMPLES_BITMASK :: int where "SAMPLES_BITMASK = 0x01FF"
definition WTM_BITMASK :: int where "WTM_BITMASK = 0x8000"
definition OVR_BITMASK :: int where "OVR_BITMASK = 0x4000"
definition FULL_BITMASK :: int where "FULL_BITMASK = 0x2000"
definition BDR_BITMASK :: int where "BDR_BITMASK = 0x1000"
definition OVR_LATCHED_BITMASK :: int where "OVR_LATCHED_BITMASK = 0x0800"

subsection \<open>The enumerations\<close>

text \<open>
  \<open>SFLPRate.add_values\<close> and \<open>FIFOMode.add_values\<close> take tuples
  \<open>(name, value, string, lsb)\<close>: the attribute \<open>name\<close> of the class becomes the integer
  \<open>value\<close> (the hardware code), and \<open>string\<close> is kept under that value. For the rates
  \<open>string\<close> is the rate in Hz (the floats 15.0 ... 480.0, whole numbers here).
\<close>

datatype SFLPRate =
  RATE_15_HZ | RATE_30_HZ | RATE_60_HZ | RATE_120_HZ | RATE_240_HZ | RATE_480_HZ

fun SFLPRate_value :: "SFLPRate \<Rightarrow> int" where
  "SFLPRate_value RATE_15_HZ = 0"
| "SFLPRate_value RATE_30_HZ = 1"
| "SFLPRate_value RATE_60_HZ = 2"
| "SFLPRate_value RATE_120_HZ = 3"
| "SFLPRate_value RATE_240_HZ = 4"
| "SFLPRate_value RATE_480_HZ = 5"

fun SFLPRate_string :: "SFLPRate \<Rightarrow> int" where
  "SFLPRate_string RATE_15_HZ = 15"
| "SFLPRate_string RATE_30_HZ = 30"
| "SFLPRate_string RATE_60_HZ = 60"
| "SFLPRate_string RATE_120_HZ = 120"
| "SFLPRate_string RATE_240_HZ = 240"
| "SFLPRate_string RATE_480_HZ = 480"

datatype FIFOMode =
  LSM6DSV16X_BYPASS_MODE
| LSM6DSV16X_FIFO_MODE
| LSM6DSV16X_CONTINUOUS_WTM_TO_FULL_MODE
| LSM6DSV16X_CONTINUOUS_TO_FIFO_MODE
| LSM6DSV16X_BYPASS_TO_CONTINUOUS_MODE
| LSM6DSV16X_CONTINUOUS_MODE
| LSM6DSV16X_BYPASS_TO_FIFO_MODE

fun FIFOMode_value :: "FIFOMode \<Rightarrow> int" where
  "FIFOMode_value LSM6DSV16X_BYPASS_MODE = 0"
| "FIFOMode_value LSM6DSV16X_FIFO_MODE = 1"
| "FIFOMode_value LSM6DSV16X_CONTINUOUS_WTM_TO_FULL_MODE = 2"
| "FIFOMode_value LSM6DSV16X_CONTINUOUS_TO_FIFO_MODE = 3"
| "FIFOMode_value LSM6DSV16X_BYPASS_TO_CONTINUOUS_MODE = 4"
| "FIFOMode_value LSM6DSV16X_CONTINUOUS_MODE = 5"
| "FIFOMode_value LSM6DSV16X_BYPASS_TO_FIFO_MODE = 6"

fun FIFOMode_string :: "FIFOMode \<Rightarrow> int" where
  "FIFOMode_string LSM6DSV16X_BYPASS_MODE = 0"
| "FIFOMode_string LSM6DSV16X_FIFO_MODE = 21"
| "FIFOMode_string LSM6DSV16X_CONTINUOUS_WTM_TO_FULL_MODE = 2"
| "FIFOMode_string LSM6DSV16X_CONTINUOUS_TO_FIFO_MODE = 3"
| "FIFOMode_string LSM6DSV16X_BYPASS_TO_CONTINUOUS_MODE = 4"
| "FIFOMode_string LSM6DSV16X_CONTINUOUS_MODE = 5"
| "FIFOMode_string LSM6DSV16X_BYPASS_TO_FIFO_MODE = 6"

subsection \<open>The status record\<close>

record FIFOStatus =
  samples :: int
  wtm :: bool
  ovr :: bool
  full :: bool
  bdr :: bool
  ovr_latch :: bool

subsection \<open>The register bus\<close>

text \<open>
  The bus is the driver's collaborator: a byte-addressed register file that is read and
  written in transactions, each of which may fail with a transport error (Python's
  \<open>OSError\<close>). The device below is a mock of it: \<open>regs\<close> holds one byte per address,
  \<open>log\<close> records every transaction that was attempted, oldest first, and \<open>fails\<close> is the
  schedule of transport failures: \<open>fails d k\<close> says that the transaction number \<open>k\<close> on
  this bus (counted from 0, so the next one has number \<open>length (log d)\<close>) fails. A failed
  transaction is logged, and changes nothing else. A multi-byte transaction addresses
  consecutive registers. \<open>stdout\<close> collects the lines the driver prints, each
  as its label and its value.
\<close>

datatype error = OSError | IndexError | StructError

datatype txn = BusRead nat nat | BusWrite nat "byte list"

datatype pyval = PInt int | PTuple "int \<times> int \<times> int"

record device =
  regs :: "nat \<Rightarrow> byte"
  log :: "txn list"
  fails :: "nat \<Rightarrow> bool"
  stdout :: "(string \<times> pyval) list"

type_synonym 'a io = "device \<Rightarrow> (error + 'a) \<times> device"

definition return :: "'a \<Rightarrow> 'a io" where
  "return x d = (Inr x, d)"

definition raise :: "error \<Rightarrow> 'a io" where
  "raise e d = (Inl e, d)"

text \<open>Sequencing of two statements: an exception of the first skips the second.\<close>

definition seq :: "'a io \<Rightarrow> ('a \<Rightarrow> 'b io) \<Rightarrow> 'b io" where
  "seq m f d = (case m d of (Inl e, d') \<Rightarrow> (Inl e, d') | (Inr x, d') \<Rightarrow> f x d')"

fun read_bytes :: "(nat \<Rightarrow> byte) \<Rightarrow> nat \<Rightarrow> nat \<Rightarrow> byte list" where
  "read_bytes r a 0 = []"
| "read_bytes r a (Suc n) = r a # read_bytes r (Suc a) n"

fun write_bytes :: "(nat \<Rightarrow> byte) \<Rightarrow> nat \<Rightarrow> byte list \<Rightarrow> (nat \<Rightarrow> byte)" where
  "write_bytes r a [] = r"
| "write_bytes r a (b # bs) = write_bytes (r(a := b)) (Suc a) bs"

definition attempt :: "txn \<Rightarrow> device \<Rightarrow> bool \<times> device" where
  "attempt t d = (fails d (length (log d)), d\<lparr>log := log d @ [t]\<rparr>)"

definition bus_read :: "nat \<Rightarrow> nat \<Rightarrow> byte list io" where
  "bus_read addr width d =
     (case attempt (BusRead addr width) d of
        (True, d') \<Rightarrow> (Inl OSError, d')
      | (False, d') \<Rightarrow> (Inr (read_bytes (regs d') addr width), d'))"

definition bus_write :: "nat \<Rightarrow> byte list \<Rightarrow> unit io" where
  "bus_write addr bs d =
     (case attempt (BusWrite addr bs) d of
        (True, d') \<Rightarrow> (Inl OSError, d')
      | (False, d') \<Rightarrow> (Inr (), d'\<lparr>regs := write_bytes (regs d') addr bs\<rparr>))"

subsection \<open>The register descriptors\<close>

text \<open>
  \<open>RWBits(num_bits, register_address, lowest_bit, register_width)\<close>, least significant
  byte first and unsigned, as every descriptor of this driver is. The bytes just read are
  folded into one integer from the last byte down to the first; the field is cut out with
  \<open>bit_mask = ((1 << num_bits) - 1) << lowest_bit\<close>.
\<close>

definition bit_mask :: "nat \<Rightarrow> nat \<Rightarrow> int" where
  "bit_mask num_bits lowest_bit = push_bit lowest_bit (push_bit num_bits 1 - 1)"

definition reg_of_bytes :: "byte list \<Rightarrow> int" where
  "reg_of_bytes buf = foldl (\<lambda>reg b. push_bit 8 reg OR uint b) 0 (rev buf)"

fun bytes_of_reg :: "nat \<Rightarrow> int \<Rightarrow> byte list" where
  "bytes_of_reg 0 reg = []"
| "bytes_of_reg (Suc n) reg = word_of_int (reg AND 0xFF) # bytes_of_reg n (drop_bit 8 reg)"

definition ROBits_get :: "nat \<Rightarrow> nat \<Rightarrow> nat \<Rightarrow> nat \<Rightarrow> int io" where
  "ROBits_get num_bits register_address lowest_bit register_width =
     seq (bus_read register_address register_width) (\<lambda>buf.
       return (drop_bit lowest_bit (reg_of_bytes buf AND bit_mask num_bits lowest_bit)))"

definition RWBits_set :: "nat \<Rightarrow> nat \<Rightarrow> nat \<Rightarrow> nat \<Rightarrow> int \<Rightarrow> unit io" where
  "RWBits_set num_bits register_address lowest_bit register_width v =
     seq (bus_read register_address register_width) (\<lambda>buf.
       bus_write register_address
         (bytes_of_reg register_width
            ((reg_of_bytes buf AND NOT (bit_mask num_bits lowest_bit)) OR push_bit lowest_bit v)))"

text \<open>
  \<open>RWBit(register_address, bit)\<close> with the default width of one byte: the mask
  \<open>1 << (bit % 8)\<close> is applied to the byte \<open>bit // 8\<close> of the data just read, which
  Python refuses with an IndexError when there is no such byte. The assigned value is used
  for its truth.
\<close>

definition RWBit_set :: "nat \<Rightarrow> nat \<Rightarrow> int \<Rightarrow> unit io" where
  "RWBit_set register_address b v =
     seq (bus_read register_address 1) (\<lambda>buf.
       if b div 8 < length buf then
         bus_write register_address
           (buf[b div 8 :=
              (if v \<noteq> 0 then buf ! (b div 8) OR push_bit (b mod 8) 1
               else buf ! (b div 8) AND NOT (push_bit (b mod 8) 1))])
       else raise IndexError)"

text \<open>
  \<open>Struct(register_address, "<hhh")\<close>: six bytes are read and unpacked as three
  little-endian signed 16-bit integers.
\<close>

definition unpack_h :: "byte \<Rightarrow> byte \<Rightarrow> int" where
  "unpack_h lo hi =
     (let u = uint lo + 256 * uint hi in if 32768 \<le> u then u - 65536 else u)"

fun unpack_hhh :: "byte list \<Rightarrow> (int \<times> int \<times> int) io" where
  "unpack_hhh [x0, x1, y0, y1, z0, z1] = return (unpack_h x0 x1, unpack_h y0 y1, unpack_h z0 z1)"
| "unpack_hhh buf = raise StructError"

definition Struct_hhh_get :: "nat \<Rightarrow> (int \<times> int \<times> int) io" where
  "Struct_hhh_get register_address = seq (bus_read register_address 6) unpack_hhh"

definition print :: "string \<Rightarrow> pyval \<Rightarrow> unit io" where
  "print label v d = (Inr (), d\<lparr>stdout := stdout d @ [(label, v)]\<rparr>)"

subsection \<open>The driver class\<close>

text \<open>
  Modelled from the spec: the base class \<open>LSM6DS\<close> and the constants of the package's
  \<open>__init__\<close> module are not among the sources. The spec's register table gives the
  bank selector as a one-bit read/write field of the embedded-function bank register and
  the engine enable as bit 1 of the embedded-function enable register, without their
  addresses; the driver assigns to the former as the attribute \<open>_mem_bank\<close> and declares
  the latter itself as \<open>RWBit(_LSM6DS_EMB_FUNC_EN_A, 1)\<close>. The two addresses and the
  position of the bank bit are therefore parameters of the model.
\<close>

record LSM6DS =
  mem_bank_register :: nat
  mem_bank_bit :: nat
  LSM6DS_EMB_FUNC_EN_A :: nat

definition set_mem_bank :: "LSM6DS \<Rightarrow> int \<Rightarrow> unit io" where
  "set_mem_bank base v = RWBit_set (mem_bank_register base) (mem_bank_bit base) v"

definition set_sflp_data_rate :: "int \<Rightarrow> unit io" where
  "set_sflp_data_rate v = RWBits_set 3 LSM6DSV16X_SFLP_ODR 3 1 v"

definition set_sflp_batch :: "int \<Rightarrow> unit io" where
  "set_sflp_batch v = RWBit_set LSM6DSV16X_EMB_FUNC_FIFO_EN_A 1 v"

definition set_fifo_mode :: "int \<Rightarrow> unit io" where
  "set_fifo_mode v = RWBits_set 3 LSM6DSV16X_FIFO_CTRL4 0 1 v"

definition set_sflp_en :: "LSM6DS \<Rightarrow> int \<Rightarrow> unit io" where
  "set_sflp_en base v = RWBit_set (LSM6DS_EMB_FUNC_EN_A base) 1 v"

definition fifo_status1 :: "int io" where
  "fifo_status1 = ROBits_get 8 LSM6DSV16X_FIFO_STATUS1 0 2"

definition fifo_data_out_tag :: "int io" where
  "fifo_data_out_tag = ROBits_get 5 LSM6DSV16X_FIFO_DATA_OUT_TAG 3 1"

definition raw_sensor_fusion_data :: "(int \<times> int \<times> int) io" where
  "raw_sensor_fusion_data = Struct_hhh_get LSM6DSV16X_FIFO_DATA_OUT_X_L"

definition enable_sflp :: "LSM6DS \<Rightarrow> unit io" where
  "enable_sflp base =
     seq (set_mem_bank base 1) (\<lambda>_.
     seq (set_sflp_data_rate (SFLPRate_value RATE_120_HZ)) (\<lambda>_.
     seq (set_sflp_batch 1) (\<lambda>_.
     seq (set_fifo_mode (FIFOMode_value LSM6DSV16X_CONTINUOUS_MODE)) (\<lambda>_.
     seq (set_sflp_en base 1) (\<lambda>_.
     set_mem_bank base 0)))))"

text \<open>
  \<open>_read_status\<close>: one read of the status descriptor, then the six fields are cut out
  of the value read. \<open>decode_status\<close> is the part after the read.
\<close>

definition decode_status :: "int \<Rightarrow> FIFOStatus" where
  "decode_status raw_status =
     \<lparr>samples = raw_status AND SAMPLES_BITMASK,
      wtm = (raw_status AND WTM_BITMASK \<noteq> 0),
      ovr = (raw_status AND OVR_BITMASK \<noteq> 0),
      full = (raw_status AND FULL_BITMASK \<noteq> 0),
      bdr = (raw_status AND BDR_BITMASK \<noteq> 0),
      ovr_latch = (raw_status AND OVR_LATCHED_BITMASK \<noteq> 0)\<rparr>"

definition read_status :: "FIFOStatus io" where
  "read_status = seq fifo_status1 (\<lambda>raw_status. return (decode_status raw_status))"

text \<open>
  The property \<open>quaternion\<close>: it has no \<open>return\<close> statement, so what the caller gets
  is Python's \<open>None\<close>, here \<open>None\<close> of an option type over the three components.
\<close>

definition quaternion :: "(int \<times> int \<times> int) option io" where
  "quaternion =
     seq read_status (\<lambda>status.
     seq raw_sensor_fusion_data (\<lambda>raw_quat_data.
     seq (print ''sample:'' (PInt (samples status))) (\<lambda>_.
     seq fifo_data_out_tag (\<lambda>tag.
     seq (print ''tag:'' (PInt tag)) (\<lambda>_.
     seq (print ''data:'' (PTuple raw_quat_data)) (\<lambda>_.
     return None))))))"

subsection \<open>Devices for the examples\<close>

text \<open>
  A device whose status registers hold the 16-bit word \<open>w\<close> (low byte at 0x1B, high
  byte at 0x1C), and one whose FIFO output registers hold a tag byte and six payload bytes.
\<close>

definition with_status_word :: "16 word \<Rightarrow> device \<Rightarrow> device" where
  "with_status_word w d =
     d\<lparr>regs := write_bytes (regs d) LSM6DSV16X_FIFO_STATUS1 [ucast w, ucast (drop_bit 8 w)]\<rparr>"

definition with_frame :: "byte \<Rightarrow> byte list \<Rightarrow> device \<Rightarrow> device" where
  "with_frame t payload d =
     d\<lparr>regs := write_bytes (regs d) LSM6DSV16X_FIFO_DATA_OUT_TAG (t # payload)\<rparr>"

definition idle_device :: device where
  "idle_device = \<lparr>regs = (\<lambda>_. 0), log = [], fails = (\<lambda>_. False), stdout = []\<rparr>"

subsection \<open>Notions used in the statements and proofs\<close>

text \<open>
  The byte a one-bit descriptor writes back when the register held \<open>x\<close>, and the byte a
  multi-bit descriptor of a one-byte register writes back.
\<close>

definition bit_byte :: "byte \<Rightarrow> nat \<Rightarrow> int \<Rightarrow> byte" where
  "bit_byte x b v =
     (if v \<noteq> 0 then x OR push_bit (b mod 8) 1 else x AND NOT (push_bit (b mod 8) 1))"

definition bits_byte :: "byte \<Rightarrow> nat \<Rightarrow> nat \<Rightarrow> int \<Rightarrow> byte" where
  "bits_byte x num_bits lowest_bit v =
     word_of_int
       (((uint x AND NOT (bit_mask num_bits lowest_bit)) OR push_bit lowest_bit v) AND 0xFF)"

text \<open>
  The shape of a transaction is its direction (\<open>True\<close> for a write) and its address. An
  operation runs a plan, a list of shapes, when on every device it attempts a prefix of the
  plan, in order, and
  \<^item> returns normally only after the whole plan, every transaction of which succeeded;
  \<^item> raises only the transport error, of the transaction it attempted last, every
    transaction before that one having succeeded: nothing is attempted after a failure.
  It never changes the schedule of failures.
\<close>

definition txn_shape :: "txn \<Rightarrow> bool \<times> nat" where
  "txn_shape t = (case t of BusRead a w \<Rightarrow> (False, a) | BusWrite a bs \<Rightarrow> (True, a))"

definition outcome_ok :: "device \<Rightarrow> (bool \<times> nat) list \<Rightarrow> (error + 'a) \<Rightarrow> txn list \<Rightarrow> bool" where
  "outcome_ok d p r ts \<longleftrightarrow>
     map txn_shape ts = take (length ts) p \<and> length ts \<le> length p \<and>
     (case r of
        Inr _ \<Rightarrow> length ts = length p \<and> (\<forall>i<length ts. \<not> fails d (length (log d) + i))
      | Inl e \<Rightarrow> e = OSError \<and> ts \<noteq> [] \<and> fails d (length (log d) + (length ts - 1)) \<and>
                 (\<forall>i<length ts - 1. \<not> fails d (length (log d) + i)))"

definition runs :: "(bool \<times> nat) list \<Rightarrow> 'a io \<Rightarrow> bool" where
  "runs p m \<longleftrightarrow>
     (\<forall>d. fails (snd (m d)) = fails d \<and>
          (\<exists>ts. log (snd (m d)) = log d @ ts \<and> outcome_ok d p (fst (m d)) ts))"

text \<open>
  The plan of \<open>_enable_sflp\<close>: six assignments, each a read and a write of one register.
  The last entry is the write that leaves the embedded-function bank.
\<close>

definition enable_sflp_plan :: "LSM6DS \<Rightarrow> (bool \<times> nat) list" where
  "enable_sflp_plan base =
     [(False, mem_bank_register base), (True, mem_bank_register base),
      (False, LSM6DSV16X_SFLP_ODR), (True, LSM6DSV16X_SFLP_ODR),
      (False, LSM6DSV16X_EMB_FUNC_FIFO_EN_A), (True, LSM6DSV16X_EMB_FUNC_FIFO_EN_A),
      (False, LSM6DSV16X_FIFO_CTRL4), (True, LSM6DSV16X_FIFO_CTRL4),
      (False, LSM6DS_EMB_FUNC_EN_A base), (True, LSM6DS_EMB_FUNC_EN_A base),
      (False, mem_bank_register base), (True, mem_bank_register base)]"

definition quaternion_plan :: "(bool \<times> nat) list" where
  "quaternion_plan =
     [(False, LSM6DSV16X_FIFO_STATUS1), (False, LSM6DSV16X_FIFO_DATA_OUT_X_L),
      (False, LSM6DSV16X_FIFO_DATA_OUT_TAG)]"

text \<open>
  A base class for the examples, with the bank selector at bit 7 of register 0x01 and the
  embedded-function enable register at 0x04, and a device on which exactly the transaction
  number \<open>k\<close> fails.
\<close>

definition example_base :: LSM6DS where
  "example_base = \<lparr>mem_bank_register = 0x01, mem_bank_bit = 7, LSM6DS_EMB_FUNC_EN_A = 0x04\<rparr>"

definition failing_at :: "nat \<Rightarrow> device" where
  "failing_at k = idle_device\<lparr>fails := (\<lambda>i. i = k)\<rparr>"

lemmas register_defs =
  LSM6DSV16X_SFLP_ODR_def LSM6DSV16X_EMB_FUNC_FIFO_EN_A_def LSM6DSV16X_FIFO_CTRL4_def
  LSM6DSV16X_FIFO_STATUS1_def LSM6DSV16X_FIFO_DATA_OUT_X_L_def LSM6DSV16X_FIFO_DATA_OUT_TAG_def

lemmas bitmask_defs =
  SAMPLES_BITMASK_def WTM_BITMASK_def OVR_BITMASK_def FULL_BITMASK_def BDR_BITMASK_def
  OVR_LATCHED_BITMASK_def


section \<open>Lemmas about the bus and the descriptors\<close>

lemma read_bytes_num: "read_bytes r a (numeral k) = r a # read_bytes r (Suc a) (pred_numeral k)"
  by (simp add: numeral_eq_Suc)

lemma bus_read_if:
  "bus_read a w d =
     (if fails d (length (log d)) then (Inl OSError, d\<lparr>log := log d @ [BusRead a w]\<rparr>)
      else (Inr (read_bytes (regs d) a w), d\<lparr>log := log d @ [BusRead a w]\<rparr>))"
  by (simp add: bus_read_def attempt_def)

lemma bus_write_if:
  "bus_write a bs d =
     (if fails d (length (log d)) then (Inl OSError, d\<lparr>log := log d @ [BusWrite a bs]\<rparr>)
      else (Inr (), d\<lparr>log := log d @ [BusWrite a bs], regs := write_bytes (regs d) a bs\<rparr>))"
  by (simp add: bus_write_def attempt_def)

lemma RWBit_set_if:
  "b < 8 \<Longrightarrow> RWBit_set a b v d =
     (if fails d (length (log d)) then (Inl OSError, d\<lparr>log := log d @ [BusRead a 1]\<rparr>)
      else if fails d (Suc (length (log d))) then
        (Inl OSError, d\<lparr>log := log d @ [BusRead a 1, BusWrite a [bit_byte (regs d a) b v]]\<rparr>)
      else (Inr (), d\<lparr>log := log d @ [BusRead a 1, BusWrite a [bit_byte (regs d a) b v]],
                      regs := (regs d)(a := bit_byte (regs d a) b v)\<rparr>))"
  by (simp add: RWBit_set_def seq_def bus_read_if bus_write_if bit_byte_def)

lemma RWBits_set_if:
  "RWBits_set n a l 1 v d =
     (if fails d (length (log d)) then (Inl OSError, d\<lparr>log := log d @ [BusRead a 1]\<rparr>)
      else if fails d (Suc (length (log d))) then
        (Inl OSError, d\<lparr>log := log d @ [BusRead a 1, BusWrite a [bits_byte (regs d a) n l v]]\<rparr>)
      else (Inr (), d\<lparr>log := log d @ [BusRead a 1, BusWrite a [bits_byte (regs d a) n l v]],
                      regs := (regs d)(a := bits_byte (regs d a) n l v)\<rparr>))"
  by (simp add: RWBits_set_def seq_def bus_read_if bus_write_if bits_byte_def reg_of_bytes_def)

lemma bit_bit_byte: "b < 8 \<Longrightarrow> bit (bit_byte x b v) b \<longleftrightarrow> v \<noteq> 0"
  by (simp add: bit_byte_def bit_simps)


lemma bit_mask_eq: "bit_mask n l = push_bit l (mask n)"
  by (simp add: bit_mask_def mask_eq_exp_minus_1)

lemma numeral_255_mask: "(0xFF::int) = mask 8" by (simp add: mask_eq_exp_minus_1)

lemma field_bits_byte:
  "l + n \<le> 8 \<Longrightarrow> take_bit n (drop_bit l (uint (bits_byte x n l v))) = take_bit n v"
  unfolding bits_byte_def bit_mask_eq numeral_255_mask
  by (rule bit_eqI) (auto simp: bit_simps)

lemma field_rate: "drop_bit 3 (uint (bits_byte x 3 3 3)) AND 7 = 3"
  using field_bits_byte[of 3 3 x 3] by (simp add: take_bit_eq_mask mask_eq_exp_minus_1)

lemma field_mode: "uint (bits_byte x 3 0 5) AND 7 = 5"
  using field_bits_byte[of 0 3 x 5] by (simp add: take_bit_eq_mask mask_eq_exp_minus_1)


lemma runsD:
  assumes "runs p m" "m d = (r, d')"
  shows "fails d' = fails d \<and> (\<exists>ts. log d' = log d @ ts \<and> outcome_ok d p r ts)"
proof -
  from assms(1) have "fails (snd (m d)) = fails d \<and>
          (\<exists>ts. log (snd (m d)) = log d @ ts \<and> outcome_ok d p (fst (m d)) ts)"
    unfolding runs_def by (rule spec)
  with assms(2) show ?thesis by simp
qed

lemma runs_bus_read: "runs [(False, a)] (bus_read a w)"
  unfolding runs_def
proof (intro allI)
  fix d
  show "fails (snd (bus_read a w d)) = fails d \<and>
        (\<exists>ts. log (snd (bus_read a w d)) = log d @ ts \<and>
              outcome_ok d [(False, a)] (fst (bus_read a w d)) ts)"
    by (cases "fails d (length (log d))")
       (simp_all add: bus_read_if outcome_ok_def txn_shape_def)
qed

lemma runs_bus_write: "runs [(True, a)] (bus_write a bs)"
  unfolding runs_def
proof (intro allI)
  fix d
  show "fails (snd (bus_write a bs d)) = fails d \<and>
        (\<exists>ts. log (snd (bus_write a bs d)) = log d @ ts \<and>
              outcome_ok d [(True, a)] (fst (bus_write a bs d)) ts)"
    by (cases "fails d (length (log d))")
       (simp_all add: bus_write_if outcome_ok_def txn_shape_def)
qed

lemma runs_return: "runs [] (return x)"
  by (simp add: runs_def return_def outcome_ok_def)

lemma runs_print: "runs [] (print l v)"
  by (simp add: runs_def print_def outcome_ok_def)


lemma outcome_ok_Inl_append:
  "outcome_ok d p (Inl e) ts \<Longrightarrow> outcome_ok d (p @ q) (Inl e) ts"
  by (simp add: outcome_ok_def)

lemma no_fail_split:
  assumes "\<forall>i<n. \<not> fails d (b + i)" and "\<forall>j<k. \<not> fails d (b + (n + j))" and "i < n + k"
  shows "\<not> fails d (b + i)"
proof (cases "i < n")
  case True
  with assms(1) show ?thesis by simp
next
  case False
  define j where "j = i - n"
  from False assms(3) have "i = n + j" "j < k" by (simp_all add: j_def)
  with assms(2) show ?thesis by simp
qed

lemma outcome_ok_append:
  assumes o1: "outcome_ok d p (Inr x) ts1"
    and o2: "outcome_ok d1 q r2 ts2"
    and f1: "fails d1 = fails d" and l1: "log d1 = log d @ ts1"
  shows "outcome_ok d (p @ q) r2 (ts1 @ ts2)"
proof -
  from o1 have len1: "length ts1 = length p" and sh1: "map txn_shape ts1 = p"
    and nf1: "\<forall>i<length p. \<not> fails d (length (log d) + i)"
    by (simp_all add: outcome_ok_def)
  from o2 have sh2: "map txn_shape ts2 = take (length ts2) q" and le2: "length ts2 \<le> length q"
    by (simp_all add: outcome_ok_def)
  have base: "length (log d1) = length (log d) + length p"
    by (simp add: l1 len1)
  show ?thesis
  proof (cases r2)
    case (Inl e)
    with o2 have e: "e = OSError" and ne: "ts2 \<noteq> []"
      and fl: "fails d (length (log d) + (length p + (length ts2 - 1)))"
      and nf2: "\<forall>j<length ts2 - 1. \<not> fails d (length (log d) + (length p + j))"
      by (simp_all add: outcome_ok_def f1 base add.assoc)
    from ne have a: "length (ts1 @ ts2) - 1 = length p + (length ts2 - 1)"
      using len1 by (cases ts2) simp_all
    have c1: "map txn_shape (ts1 @ ts2) = take (length (ts1 @ ts2)) (p @ q)"
      by (simp add: sh1 len1) (simp add: sh2)
    have c2: "length (ts1 @ ts2) \<le> length (p @ q)"
      using le2 by (simp add: len1)
    have c4: "ts1 @ ts2 \<noteq> []" using ne by simp
    have c5: "fails d (length (log d) + (length (ts1 @ ts2) - 1))"
      unfolding a by (rule fl)
    have c6: "\<forall>i<length (ts1 @ ts2) - 1. \<not> fails d (length (log d) + i)"
      unfolding a using no_fail_split[OF nf1 nf2] by blast
    show ?thesis
      unfolding outcome_ok_def Inl sum.case
      by (intro conjI c1 c2 e c4 c5 c6)
  next
    case (Inr y)
    with o2 have len2: "length ts2 = length q"
      and nf2: "\<forall>j<length q. \<not> fails d (length (log d) + (length p + j))"
      by (simp_all add: outcome_ok_def f1 base add.assoc)
    have "\<forall>i<length p + length q. \<not> fails d (length (log d) + i)"
      using no_fail_split[OF nf1 nf2] by blast
    with Inr sh1 sh2 len1 len2 show ?thesis
      by (simp add: outcome_ok_def)
  qed
qed

lemma runs_seq:
  assumes m: "runs p m" and f: "\<And>x. runs q (f x)"
  shows "runs (p @ q) (seq m f)"
  unfolding runs_def
proof (intro allI)
  fix d
  obtain r d1 where md: "m d = (r, d1)" by (cases "m d")
  from runsD[OF m md] obtain ts1 where
    f1: "fails d1 = fails d" and l1: "log d1 = log d @ ts1" and o1: "outcome_ok d p r ts1"
    by blast
  show "fails (snd (seq m f d)) = fails d \<and>
        (\<exists>ts. log (snd (seq m f d)) = log d @ ts \<and> outcome_ok d (p @ q) (fst (seq m f d)) ts)"
  proof (cases r)
    case (Inl e)
    then have sq: "seq m f d = (Inl e, d1)" using md by (simp add: seq_def)
    from o1 Inl have "outcome_ok d (p @ q) (Inl e) ts1"
      by (simp add: outcome_ok_Inl_append)
    with f1 l1 show ?thesis unfolding sq by auto
  next
    case (Inr x)
    obtain r2 d2 where fd: "f x d1 = (r2, d2)" by (cases "f x d1")
    from runsD[OF f fd] obtain ts2 where
      f2: "fails d2 = fails d1" and l2: "log d2 = log d1 @ ts2" and o2: "outcome_ok d1 q r2 ts2"
      by blast
    have sq: "seq m f d = (r2, d2)" using md Inr fd by (simp add: seq_def)
    from o1 Inr have "outcome_ok d (p @ q) r2 (ts1 @ ts2)"
      using outcome_ok_append[OF _ o2 f1 l1] by simp
    moreover have "log d2 = log d @ (ts1 @ ts2)" by (simp add: l1 l2)
    ultimately show ?thesis unfolding sq using f1 f2 by auto
  qed
qed

lemma runs_RWBits_set: "runs [(False, a), (True, a)] (RWBits_set n a l w v)"
  unfolding RWBits_set_def
  using runs_seq[OF runs_bus_read runs_bus_write] by simp

lemma runs_RWBit_set:
  assumes "b < 8"
  shows "runs [(False, a), (True, a)] (RWBit_set a b v)"
  unfolding runs_def
proof (intro allI)
  fix d :: device
  consider "fails d (length (log d))"
    | "\<not> fails d (length (log d))" "fails d (Suc (length (log d)))"
    | "\<not> fails d (length (log d))" "\<not> fails d (Suc (length (log d)))"
    by blast
  then show "fails (snd (RWBit_set a b v d)) = fails d \<and>
        (\<exists>ts. log (snd (RWBit_set a b v d)) = log d @ ts \<and>
              outcome_ok d [(False, a), (True, a)] (fst (RWBit_set a b v d)) ts)"
  proof cases
    case 1
    then show ?thesis
      by (simp add: RWBit_set_if[OF assms] outcome_ok_def txn_shape_def)
  next
    case 2
    then show ?thesis
      by (simp add: RWBit_set_if[OF assms] outcome_ok_def txn_shape_def)
  next
    case 3
    then show ?thesis
      by (simp add: RWBit_set_if[OF assms] outcome_ok_def txn_shape_def less_Suc_eq)
  qed
qed

section \<open>The status read\<close>

lemma byte_and_high_bit: "8 \<le> n \<Longrightarrow> uint (a::byte) AND push_bit n 1 = 0"
  by (rule bit_eqI) (auto simp: bit_simps dest: bit_imp_le_length)

lemma byte_and_mask_9: "uint (a::byte) AND mask 9 = uint a"
  unfolding take_bit_eq_mask[symmetric]
  by (rule bit_eqI) (auto simp: bit_simps dest: bit_imp_le_length)

lemma decode_status_byte:
  "decode_status (uint (a::byte)) =
     \<lparr>samples = uint a, wtm = False, ovr = False, full = False, bdr = False, ovr_latch = False\<rparr>"
proof -
  have lo: "uint a AND 0x1FF = uint a"
    using byte_and_mask_9[of a] by (simp add: mask_eq_exp_minus_1)
  have hi: "uint a AND 0x8000 = 0" "uint a AND 0x4000 = 0" "uint a AND 0x2000 = 0"
    "uint a AND 0x1000 = 0" "uint a AND 0x800 = 0"
    using byte_and_high_bit[of 15 a] byte_and_high_bit[of 14 a] byte_and_high_bit[of 13 a]
      byte_and_high_bit[of 12 a] byte_and_high_bit[of 11 a] by simp_all
  show ?thesis
    unfolding decode_status_def bitmask_defs by (simp add: hi lo)
qed

lemma low_byte_of_reg: "(push_bit 8 (uint (b::byte)) OR uint (a::byte)) AND mask 8 = uint a"
  unfolding take_bit_eq_mask[symmetric]
  by (rule bit_eqI) (auto simp: bit_simps dest: bit_imp_le_length)

lemma fifo_status1_if:
  "fifo_status1 d =
     (if fails d (length (log d))
      then (Inl OSError, d\<lparr>log := log d @ [BusRead LSM6DSV16X_FIFO_STATUS1 2]\<rparr>)
      else (Inr (uint (regs d LSM6DSV16X_FIFO_STATUS1)),
            d\<lparr>log := log d @ [BusRead LSM6DSV16X_FIFO_STATUS1 2]\<rparr>))"
  by (simp add: fifo_status1_def ROBits_get_def seq_def bus_read_if return_def
      read_bytes_num reg_of_bytes_def bit_mask_eq low_byte_of_reg)

lemma read_status_if:
  "read_status d =
     (if fails d (length (log d))
      then (Inl OSError, d\<lparr>log := log d @ [BusRead LSM6DSV16X_FIFO_STATUS1 2]\<rparr>)
      else (Inr (decode_status (uint (regs d LSM6DSV16X_FIFO_STATUS1))),
            d\<lparr>log := log d @ [BusRead LSM6DSV16X_FIFO_STATUS1 2]\<rparr>))"
  by (simp add: read_status_def seq_def fifo_status1_if return_def)

lemma with_status_word_simps:
  "regs (with_status_word w d) LSM6DSV16X_FIFO_STATUS1 = ucast w"
  "log (with_status_word w d) = log d"
  "fails (with_status_word w d) = fails d"
  by (simp_all add: with_status_word_def register_defs)

lemma uint_low_byte: "uint (ucast (w :: 16 word) :: byte) = uint w AND 0xFF"
  unfolding numeral_255_mask by (simp add: unsigned_ucast_eq take_bit_eq_mask)

lemma samples_decode_status_bounds:
  "0 \<le> samples (decode_status raw) \<and> samples (decode_status raw) \<le> 511"
  by (simp add: decode_status_def SAMPLES_BITMASK_def)

lemma samples_decode_status_reserved:
  "samples (decode_status (raw XOR (k AND 0x0600))) = samples (decode_status raw)"
proof -
  have m: "(0x1FF::int) = mask 9" by (simp add: mask_eq_exp_minus_1)
  have k: "(0x600::int) = push_bit 9 3" by simp
  have "(raw XOR (k AND push_bit 9 3)) AND mask 9 = raw AND mask 9"
    unfolding take_bit_eq_mask[symmetric]
    by (rule bit_eqI) (auto simp: bit_simps)
  then show ?thesis
    unfolding decode_status_def SAMPLES_BITMASK_def m k by simp
qed

lemma low_byte_reserved:
  "(ucast ((w :: 16 word) XOR (m AND 0x0600)) :: byte) = ucast w"
proof -
  have nb: "False" if "n < 8" "bit (0x600::int) n" for n
  proof -
    have "(0x600::int) = push_bit 9 3" by simp
    then have "bit (0x600::int) n \<longleftrightarrow> bit (push_bit 9 (3::int)) n" by (simp only:)
    with that show ?thesis by (simp only: bit_push_bit_iff) simp
  qed
  show ?thesis
    by (rule bit_eqI) (auto simp: bit_simps dest: nb)
qed

text \<open>
  Claim C10. Every status that a status read returns has all five flags false and a
  sample count of at most 255: the descriptor \<open>ROBits(8, 0x1B, 0, 2)\<close> reads two bytes
  but keeps only the low eight bits of the word, so the count is the low byte of the
  status word and no mask at bit 11 or above meets a set bit.
\<close>

theorem read_status_flags_never_set:
  assumes "fst (read_status (with_status_word w d)) = Inr st"
  shows "\<not> wtm st \<and> \<not> ovr st \<and> \<not> full st \<and> \<not> bdr st \<and> \<not> ovr_latch st \<and>
         samples st = uint w AND 0xFF \<and> 0 \<le> samples st \<and> samples st \<le> 255"
proof -
  from assms have st: "st = decode_status (uint (ucast w :: byte))"
    by (auto simp: read_status_if with_status_word_simps split: if_splits)
  have "uint (ucast w :: byte) \<le> 255"
    using uint_bounded[of "ucast w :: byte"] by simp
  then show ?thesis
    unfolding st decode_status_byte by (simp add: uint_low_byte)
qed

theorem read_status_flags_never_set_witness:
  "fst (read_status (with_status_word 0xFA07 idle_device)) =
     Inr \<lparr>samples = 7, wtm = False, ovr = False, full = False, bdr = False, ovr_latch = False\<rparr> \<and>
   (7::int) = uint (0xFA07 :: 16 word) AND 0xFF"
proof -
  have h: "fst (read_status (with_status_word 0xFA07 idle_device)) =
     Inr \<lparr>samples = 7, wtm = False, ovr = False, full = False, bdr = False, ovr_latch = False\<rparr>"
    by (simp add: read_status_if with_status_word_simps idle_device_def decode_status_def
        bitmask_defs)
  from read_status_flags_never_set[OF h] h show ?thesis by simp
qed

text \<open>
  Claim C1. The claim is that the status read decodes bit 15 as \<open>wtm\<close>, bits 14 to 11
  as the other flags and bits 8 to 0 as the count, so that the word 0x8207 gives the count
  7 with the watermark flag set. The masks of \<open>_read_status\<close> are written for that
  layout (\<open>decode_status\<close> on the whole word gives exactly that), but the value they are
  applied to is only the low byte of the word: the driver's status read of 0x8207 returns
  the watermark flag false.
\<close>

theorem read_status_0x8207:
  "fst (read_status (with_status_word 0x8207 idle_device)) =
     Inr \<lparr>samples = 7, wtm = False, ovr = False, full = False, bdr = False, ovr_latch = False\<rparr> \<and>
   log (snd (read_status (with_status_word 0x8207 idle_device))) = [BusRead 0x1B 2] \<and>
   regs (with_status_word 0x8207 idle_device) 0x1B = 0x07 \<and>
   regs (with_status_word 0x8207 idle_device) 0x1C = 0x82 \<and>
   decode_status 0x8207 =
     \<lparr>samples = 7, wtm = True, ovr = False, full = False, bdr = False, ovr_latch = False\<rparr>"
  by (simp add: read_status_if with_status_word_simps idle_device_def decode_status_def
      bitmask_defs with_status_word_def register_defs)


text \<open>
  Claim C7. For every status word the count of the status read is between 0 and 511, and
  flipping bits 10 and 9 of the word in any way leaves the count as it was. The same
  holds for the decoding on its own, whatever integer it is given.
\<close>

theorem samples_range_and_reserved_bits:
  assumes "\<not> fails d (length (log d))"
  shows "\<exists>st st'.
           fst (read_status (with_status_word w d)) = Inr st \<and>
           fst (read_status (with_status_word (w XOR (m AND 0x0600)) d)) = Inr st' \<and>
           0 \<le> samples st \<and> samples st \<le> 511 \<and> samples st' = samples st \<and>
           0 \<le> samples (decode_status raw) \<and> samples (decode_status raw) \<le> 511 \<and>
           samples (decode_status (raw XOR (k AND 0x0600))) = samples (decode_status raw)"
  using assms samples_decode_status_bounds[of raw] samples_decode_status_reserved[of raw k]
    samples_decode_status_bounds[of "uint (ucast w :: byte)"]
  by (simp add: read_status_if with_status_word_simps low_byte_reserved)

theorem samples_range_and_reserved_bits_witness:
  "\<not> fails idle_device (length (log idle_device)) \<and>
   fst (read_status (with_status_word 0x0107 idle_device)) =
     Inr \<lparr>samples = 7, wtm = False, ovr = False, full = False, bdr = False, ovr_latch = False\<rparr> \<and>
   fst (read_status (with_status_word 0x0707 idle_device)) =
     Inr \<lparr>samples = 7, wtm = False, ovr = False, full = False, bdr = False, ovr_latch = False\<rparr> \<and>
   samples (decode_status 0x0707) = 0x107"
proof -
  have h: "\<not> fails idle_device (length (log idle_device))"
    by (simp add: idle_device_def)
  from samples_range_and_reserved_bits[OF h, of "0x0107" "0x0600" "0x0107" "0x0600"] h
  show ?thesis
    by (simp add: read_status_if with_status_word_simps idle_device_def decode_status_def
        bitmask_defs with_status_word_def register_defs)
qed

section \<open>The FIFO payload\<close>

lemma uint_word_cat_bytes:
  "uint (word_cat (hi::byte) (lo::byte) :: 16 word) = uint lo + 256 * uint hi"
proof -
  have "uint (word_cat hi lo :: 16 word) = push_bit 8 (uint hi) OR uint lo"
    by (rule bit_eqI) (auto simp: bit_simps dest: bit_imp_le_length)
  also have "\<dots> = push_bit 8 (uint hi) + uint lo"
    by (rule disjunctive_add[symmetric]) (auto simp: bit_simps dest: bit_imp_le_length)
  finally show ?thesis by (simp add: push_bit_eq_mult)
qed

lemma unpack_h_sint: "unpack_h lo hi = sint (word_cat hi lo :: 16 word)"
proof -
  define u where "u = uint (word_cat hi lo :: 16 word)"
  have b: "0 \<le> u" "u < 65536"
    using uint_bounded[of "word_cat hi lo :: 16 word"] by (simp_all add: u_def)
  have s: "sint (word_cat hi lo :: 16 word) = signed_take_bit 15 u"
    by (simp add: sint_uint u_def)
  have "signed_take_bit 15 u = (if 32768 \<le> u then u - 65536 else u)"
  proof (cases "32768 \<le> u")
    case True
    have "take_bit (Suc 15) u = take_bit (Suc 15) (u - 65536)"
      by (simp add: take_bit_eq_mod)
    then have "signed_take_bit 15 u = signed_take_bit 15 (u - 65536)"
      by (simp only: signed_take_bit_eq_iff_take_bit_eq)
    also have "\<dots> = u - 65536"
      using True b by (intro signed_take_bit_int_eq_self) simp_all
    finally show ?thesis using True by simp
  next
    case False
    then have "signed_take_bit 15 u = u"
      using b by (intro signed_take_bit_int_eq_self) simp_all
    with False show ?thesis by simp
  qed
  with s show ?thesis
    by (simp add: unpack_h_def Let_def u_def uint_word_cat_bytes)
qed

lemma raw_sensor_fusion_data_if:
  "raw_sensor_fusion_data d =
     (if fails d (length (log d))
      then (Inl OSError, d\<lparr>log := log d @ [BusRead LSM6DSV16X_FIFO_DATA_OUT_X_L 6]\<rparr>)
      else (Inr (unpack_h (regs d 0x79) (regs d 0x7A), unpack_h (regs d 0x7B) (regs d 0x7C),
                 unpack_h (regs d 0x7D) (regs d 0x7E)),
            d\<lparr>log := log d @ [BusRead LSM6DSV16X_FIFO_DATA_OUT_X_L 6]\<rparr>))"
  by (simp add: raw_sensor_fusion_data_def Struct_hhh_get_def seq_def bus_read_if read_bytes_num
      return_def register_defs)

lemma with_frame_simps:
  "log (with_frame t p d) = log d"
  "fails (with_frame t p d) = fails d"
  "regs (with_frame t [x0, x1, y0, y1, z0, z1] d) 0x78 = t"
  "regs (with_frame t [x0, x1, y0, y1, z0, z1] d) 0x79 = x0"
  "regs (with_frame t [x0, x1, y0, y1, z0, z1] d) 0x7A = x1"
  "regs (with_frame t [x0, x1, y0, y1, z0, z1] d) 0x7B = y0"
  "regs (with_frame t [x0, x1, y0, y1, z0, z1] d) 0x7C = y1"
  "regs (with_frame t [x0, x1, y0, y1, z0, z1] d) 0x7D = z0"
  "regs (with_frame t [x0, x1, y0, y1, z0, z1] d) 0x7E = z1"
  by (simp_all add: with_frame_def register_defs)

text \<open>
  Claim C6. Reading the fusion payload descriptor takes the six bytes at 0x79 to 0x7E as
  three little-endian signed 16-bit integers: each component is the two's-complement value
  of the 16-bit word made of its high and low byte. For the payload bytes
  01 00 02 00 FF FF the components are 1, 2 and -1.
\<close>

theorem fusion_payload_signed_le16:
  assumes "\<not> fails d (length (log d))"
  shows "fst (raw_sensor_fusion_data (with_frame t [x0, x1, y0, y1, z0, z1] d)) =
           Inr (sint (word_cat x1 x0 :: 16 word), sint (word_cat y1 y0 :: 16 word),
                sint (word_cat z1 z0 :: 16 word)) \<and>
         fst (raw_sensor_fusion_data (with_frame t [0x01, 0x00, 0x02, 0x00, 0xFF, 0xFF] idle_device)) =
           Inr (1, 2, -1)"
proof -
  have "fst (raw_sensor_fusion_data (with_frame t [0x01, 0x00, 0x02, 0x00, 0xFF, 0xFF] idle_device)) =
           Inr (1, 2, -1)"
    by (simp add: raw_sensor_fusion_data_if with_frame_simps idle_device_def unpack_h_def)
  with assms show ?thesis
    by (simp add: raw_sensor_fusion_data_if with_frame_simps unpack_h_sint)
qed

theorem fusion_payload_signed_le16_witness:
  "\<not> fails idle_device (length (log idle_device)) \<and>
   fst (raw_sensor_fusion_data (with_frame 0x98 [0x34, 0x12, 0x00, 0x80, 0xFE, 0xFF] idle_device)) =
     Inr (0x1234, -32768, -2)"
proof -
  have h: "\<not> fails idle_device (length (log idle_device))"
    by (simp add: idle_device_def)
  from fusion_payload_signed_le16[OF h, of "0x98" "0x34" "0x12" "0x00" "0x80" "0xFE" "0xFF"] h
  show ?thesis
    by (simp add: word_cat_eq)
qed

section \<open>The enumerations\<close>

lemma UNIV_FIFOMode:
  "(UNIV :: FIFOMode set) =
     {LSM6DSV16X_BYPASS_MODE, LSM6DSV16X_FIFO_MODE, LSM6DSV16X_CONTINUOUS_WTM_TO_FULL_MODE,
      LSM6DSV16X_CONTINUOUS_TO_FIFO_MODE, LSM6DSV16X_BYPASS_TO_CONTINUOUS_MODE,
      LSM6DSV16X_CONTINUOUS_MODE, LSM6DSV16X_BYPASS_TO_FIFO_MODE}"
  by (auto intro: FIFOMode.exhaust)

text \<open>
  Claim C8. Each of the seven FIFO modes has a code between 0 and 7, which the mask of the
  three-bit mode field \<open>RWBits(3, 0x0A, 0)\<close> leaves unchanged.
\<close>

theorem FIFOMode_value_fits_field:
  "0 \<le> FIFOMode_value m \<and> FIFOMode_value m \<le> 7 \<and>
   FIFOMode_value m AND bit_mask 3 0 = FIFOMode_value m \<and>
   card (UNIV :: FIFOMode set) = 7"
proof -
  have "card (UNIV :: FIFOMode set) = 7"
    unfolding UNIV_FIFOMode by simp
  then show ?thesis
    by (cases m) (simp_all add: bit_mask_def)
qed

end
